theory Spec2Isabelle
  imports Main "HOL-Library.AList"
begin

section \<open>Values and exceptions of the inventory script\<close>

text \<open>
  The script \<^verbatim>\<open>theforeman.py\<close> handles the decoded JSON documents that the Foreman
  client returns. They are modelled by the datatype below: Python's \<^verbatim>\<open>None\<close> is
  \<open>JNull\<close>, a \<^verbatim>\<open>dict\<close> with string keys is \<open>JObj\<close> (an association list, the first
  binding of a key being the live one), a \<^verbatim>\<open>list\<close> is \<open>JList\<close>. Booleans and
  floating point numbers do not occur in what the script inspects and are left out.
\<close>

datatype json =
    JNull
  | JInt int
  | JStr string
  | JList "json list"
  | JObj "(string \<times> json) list"

text \<open>The exceptions that the script, the configuration parser and the client can raise.\<close>

datatype pyerror =
    AttributeError
  | TypeError
  | NameError
  | UnboundLocalError
  | NoSectionError
  | NoOptionError
  | InterpolationError
  | ConnectionError string
  | ClientError string

text \<open>\<^verbatim>\<open>d.get(k)\<close>: defined on a dict only, \<^verbatim>\<open>None\<close> for a key that is not there.
  On \<^verbatim>\<open>None\<close>, a number, a string or a list the attribute \<^verbatim>\<open>get\<close> does not exist.\<close>

fun py_get :: "json \<Rightarrow> string \<Rightarrow> pyerror + json" where
  "py_get (JObj kvs) k = Inr (case map_of kvs k of None \<Rightarrow> JNull | Some v \<Rightarrow> v)"
| "py_get _ k = Inl AttributeError"

text \<open>\<^verbatim>\<open>s.lower()\<close>: defined on strings only; the letters A to Z are mapped to a to z.\<close>

definition lower_char :: "char \<Rightarrow> char" where
  "lower_char ch =
     (let n = (of_char ch :: nat) in if 65 \<le> n \<and> n \<le> 90 then char_of (n + 32) else ch)"

fun py_lower :: "json \<Rightarrow> pyerror + json" where
  "py_lower (JStr s) = Inr (JStr (map lower_char s))"
| "py_lower _ = Inl AttributeError"

text \<open>Only \<^verbatim>\<open>None\<close>, numbers and strings can be dictionary keys; lists and dicts are
  unhashable and using one as a key raises \<^verbatim>\<open>TypeError\<close>.\<close>

fun hashable :: "json \<Rightarrow> bool" where
  "hashable (JList _) = False"
| "hashable (JObj _) = False"
| "hashable _ = True"

text \<open>\<^verbatim>\<open>str(x)\<close> as \<^verbatim>\<open>format\<close> applies it: a string is itself, \<^verbatim>\<open>None\<close> and
  numbers are written as Python writes them. For a list or a dict the text is schematic
  (elements in the order of the list, strings without escape sequences); the only place
  that formats a value is the operating system branch of \<^verbatim>\<open>_get_from_id\<close>.\<close>

fun digits :: "nat \<Rightarrow> string" where
  "digits n = (if n < 10 then [char_of (48 + n)] else digits (n div 10) @ [char_of (48 + n mod 10)])"

definition str_int :: "int \<Rightarrow> string" where
  "str_int i = (if i < 0 then CHR ''-'' # digits (nat (- i)) else digits (nat i))"

fun join_comma :: "string list \<Rightarrow> string" where
  "join_comma [] = []"
| "join_comma [s] = s"
| "join_comma (s # t # ss) = s @ '', '' @ join_comma (t # ss)"

fun py_repr :: "json \<Rightarrow> string" where
  "py_repr JNull = ''None''"
| "py_repr (JInt i) = str_int i"
| "py_repr (JStr s) = ''u'' @ [CHR 0x27] @ s @ [CHR 0x27]"
| "py_repr (JList xs) = ''['' @ join_comma (map py_repr xs) @ '']''"
| "py_repr (JObj kvs) =
     ''{'' @ join_comma (map (\<lambda>kv. ''u'' @ [CHR 0x27] @ fst kv @ [CHR 0x27] @ '': '' @ py_repr (snd kv)) kvs) @ ''}''"

fun py_str :: "json \<Rightarrow> string" where
  "py_str (JStr s) = s"
| "py_str v = py_repr v"

section \<open>The client adapter and the state of the run\<close>

text \<open>
  The Foreman client is an external collaborator. \<open>index_hosts\<close> gives the list of host
  records of a page; \<open>methods\<close> is the table that \<^verbatim>\<open>getattr(self.client, name)\<close> looks
  a \<^verbatim>\<open>show_...\<close> method up in, each method taking an identifier and returning the
  decoded response or raising.
\<close>

record client =
  index_hosts :: "nat \<Rightarrow> json list"
  methods :: "string \<Rightarrow> (json \<Rightarrow> pyerror + json) option"

text \<open>Every request to the API is logged in the order it is made.\<close>

datatype call =
    Connect string string string
  | IndexHosts nat
  | Show string json

text \<open>The attributes of the \<^verbatim>\<open>ForemanInventory\<close> object that the run updates, and the log.
  The cache is a dict of dicts: reference type, then identifier, then the stored response.\<close>

record state =
  inventory :: json
  cache :: "(string \<times> (json \<times> json) list) list"
  base_url :: "string option"
  username :: "string option"
  password :: "string option"
  calls :: "call list"

text \<open>A method that may raise and may change the state.\<close>

type_synonym 'a prog = "state \<Rightarrow> (pyerror + 'a) \<times> state"

definition returnP :: "'a \<Rightarrow> 'a prog" where
  "returnP x st = (Inr x, st)"

definition liftP :: "pyerror + 'a \<Rightarrow> 'a prog" where
  "liftP r st = (r, st)"

definition bindP :: "'a prog \<Rightarrow> ('a \<Rightarrow> 'b prog) \<Rightarrow> 'b prog" where
  "bindP m f st = (case m st of (Inl e, st') \<Rightarrow> (Inl e, st') | (Inr x, st') \<Rightarrow> f x st')"

section \<open>The methods of ForemanInventory\<close>

definition empty_inventory :: json where
  "empty_inventory = JObj [(''_meta'', JObj [(''hostvars'', JObj [])])]"

definition cache_keys :: "string list" where
  "cache_keys = [''operatingsystem'', ''hostgroup'', ''environment'', ''model'',
     ''compute_resource'', ''domain'', ''subnet'', ''architecture'', ''host'']"

definition empty_cache :: "(string \<times> (json \<times> json) list) list" where
  "empty_cache = fold (\<lambda>i keys_d. AList.update i [] keys_d) cache_keys []"

text \<open>
  \<^verbatim>\<open>_get_object_from_id\<close>. The bucket lookup \<^verbatim>\<open>self._cache.get(obj_type)\<close> gives
  \<^verbatim>\<open>None\<close> for a type without a bucket, and \<^verbatim>\<open>None.get\<close> raises. The response is
  stored whole; what is returned is its field named by the type.
\<close>

definition get_object_from_id :: "client \<Rightarrow> string \<Rightarrow> json \<Rightarrow> json prog" where
  "get_object_from_id c obj_type obj_id st =
     (if obj_id = JNull then (Inr JNull, st)
      else case map_of (cache st) obj_type of
        None \<Rightarrow> (Inl AttributeError, st)
      | Some bucket \<Rightarrow>
          if \<not> hashable obj_id then (Inl TypeError, st)
          else
            let obj = (case map_of bucket obj_id of None \<Rightarrow> JNull | Some v \<Rightarrow> v) in
            if obj = JNull then
              let method_name = ''show_'' @ obj_type @ ''s'' in
              (case methods c method_name of
                 None \<Rightarrow> (Inl AttributeError, st)
               | Some func \<Rightarrow>
                   let st1 = st\<lparr>calls := calls st @ [Show method_name obj_id]\<rparr> in
                   (case func obj_id of
                      Inl e \<Rightarrow> (Inl e, st1)
                    | Inr obj' \<Rightarrow>
                        (py_get obj' obj_type,
                         st1\<lparr>cache := AList.update obj_type (AList.update obj_id obj' bucket) (cache st1)\<rparr>)))
            else (py_get obj obj_type, st))"

text \<open>
  \<^verbatim>\<open>_get_from_id\<close>. Its first statement
  \<^verbatim>\<open>param = self._get_object_from_id(param, param_id)\<close> reads the local \<^verbatim>\<open>param\<close>
  before anything is assigned to it: the locals at that point are the two parameters.
  The operating system branch reads \<^verbatim>\<open>os_obj\<close>, which is neither a local nor one of the
  module's globals (the imported modules and the class), none of which is a data value.
\<close>

definition load_local :: "(string \<times> json) list \<Rightarrow> string \<Rightarrow> pyerror + json" where
  "load_local env x = (case map_of env x of None \<Rightarrow> Inl UnboundLocalError | Some v \<Rightarrow> Inr v)"

definition module_globals :: "(string \<times> json) list" where
  "module_globals = []"

definition load_global :: "string \<Rightarrow> pyerror + json" where
  "load_global x = (case map_of module_globals x of None \<Rightarrow> Inl NameError | Some v \<Rightarrow> Inr v)"

text \<open>The call of \<^verbatim>\<open>_get_object_from_id\<close> with a type that is a value of any kind: only
  a string can name a bucket.\<close>

definition get_object_from_value :: "client \<Rightarrow> json \<Rightarrow> json \<Rightarrow> json prog" where
  "get_object_from_value c obj_type obj_id st =
     (if obj_id = JNull then (Inr JNull, st)
      else case obj_type of
        JStr t \<Rightarrow> get_object_from_id c t obj_id st
      | _ \<Rightarrow> (if hashable obj_type then (Inl AttributeError, st) else (Inl TypeError, st)))"

definition get_from_id :: "client \<Rightarrow> string \<Rightarrow> json \<Rightarrow> json prog" where
  "get_from_id c param_name param_id =
     bindP (liftP (load_local [(''param_name'', JStr param_name), (''param_id'', param_id)] ''param''))
       (\<lambda>p. bindP (get_object_from_value c p param_id)
         (\<lambda>param.
            if param = JNull then returnP JNull
            else if param_name = ''hostgroup'' then liftP (py_get param ''label'')
            else if param_name = ''operatingsystem'' then
              bindP (liftP (load_global ''os_obj'')) (\<lambda>os_obj.
              bindP (liftP (py_get os_obj ''name'')) (\<lambda>n.
              bindP (liftP (py_get os_obj ''major'')) (\<lambda>m.
                returnP (JStr (py_str n @ ''-'' @ py_str m)))))
            else
              bindP (liftP (py_get param ''name'')) (\<lambda>result.
                if param_name = ''environment'' then liftP (py_lower result)
                else returnP result)))"

text \<open>
  \<^verbatim>\<open>get_host_info\<close>. The entries of the dict display are evaluated in the order they
  are written, so the first one that raises decides the exception.
\<close>

definition get_host_info :: "client \<Rightarrow> json \<Rightarrow> json prog" where
  "get_host_info c host_id =
     bindP (get_object_from_id c ''host'' host_id) (\<lambda>meta.
       if meta = JNull then returnP (JObj [])
       else
         bindP (liftP (py_get meta ''id'')) (\<lambda>v_id.
         bindP (liftP (py_get meta ''ip'')) (\<lambda>v_ip.
         bindP (liftP (py_get meta ''name'')) (\<lambda>v_name.
         bindP (liftP (py_get meta ''environment'')) (\<lambda>e1.
         bindP (liftP (py_get e1 ''environment'')) (\<lambda>e2.
         bindP (liftP (py_get e2 ''name'')) (\<lambda>e3.
         bindP (liftP (py_lower e3)) (\<lambda>v_environment.
         bindP (liftP (py_get meta ''operatingsystem_id'')) (\<lambda>os_id.
         bindP (get_from_id c ''operatingsystem'' os_id) (\<lambda>v_os.
         bindP (liftP (py_get meta ''model_id'')) (\<lambda>model_id.
         bindP (get_from_id c ''model'' model_id) (\<lambda>v_model.
         bindP (liftP (py_get meta ''compute_resource_id'')) (\<lambda>cr_id.
         bindP (get_from_id c ''compute_resource'' cr_id) (\<lambda>v_compute_resource.
         bindP (liftP (py_get meta ''domain_id'')) (\<lambda>domain_id.
         bindP (get_from_id c ''domain'' domain_id) (\<lambda>v_domain.
         bindP (liftP (py_get meta ''subnet_id'')) (\<lambda>subnet_id.
         bindP (get_from_id c ''subnet'' subnet_id) (\<lambda>v_subnet.
         bindP (liftP (py_get meta ''architecture_id'')) (\<lambda>arch_id.
         bindP (get_from_id c ''architecture'' arch_id) (\<lambda>v_architecture.
         bindP (liftP (py_get meta ''created_at'')) (\<lambda>v_created.
         bindP (liftP (py_get meta ''updated_at'')) (\<lambda>v_updated.
         bindP (liftP (py_get meta ''status'')) (\<lambda>v_status.
         bindP (liftP (py_get meta ''hostgroup_id'')) (\<lambda>hg_id.
         bindP (get_from_id c ''hostgroup'' hg_id) (\<lambda>v_hostgroup.
         bindP (liftP (py_get meta ''ip'')) (\<lambda>v_ssh.
           returnP (JObj [
             (''id'', v_id), (''ip'', v_ip), (''name'', v_name),
             (''environment'', v_environment), (''os'', v_os), (''model'', v_model),
             (''compute_resource'', v_compute_resource), (''domain'', v_domain),
             (''subnet'', v_subnet), (''architecture'', v_architecture),
             (''created'', v_created), (''updated'', v_updated), (''status'', v_status),
             (''hostgroup'', v_hostgroup), (''ansible_ssh_host'', v_ssh)
           ])))))))))))))))))))))))))))"

text \<open>
  \<^verbatim>\<open>get_inventory\<close>. The loop \<^verbatim>\<open>while True\<close> asks for page after page and leaves at
  the first empty one; it need not end, so it is a partial function whose value \<open>None\<close>
  stands for a run that never returns.
\<close>

partial_function (option) fetch_pages :: "client \<Rightarrow> nat \<Rightarrow> json list \<Rightarrow> state \<Rightarrow> (json list \<times> state) option" where
  "fetch_pages c page hosts st =
     (let resp = index_hosts c page;
          st1 = st\<lparr>calls := calls st @ [IndexHosts page]\<rparr>
      in if length resp < 1 then Some (hosts, st1)
         else fetch_pages c (page + 1) (hosts @ resp) st1)"

declare fetch_pages.simps [code]

text \<open>
  The body of the \<^verbatim>\<open>for\<close> loop starts by evaluating \<^verbatim>\<open>self._get_hostgroup_from_id\<close>.
  The attributes of the object are the methods of the class and what \<^verbatim>\<open>__init__\<close>
  assigns (names inherited from \<^verbatim>\<open>object\<close> aside). Of these only
  \<^verbatim>\<open>get_host_info\<close> can be called with one argument: the other methods take none or
  two, and the data attributes are not callable.
\<close>

definition ForemanInventory_attributes :: "string list" where
  "ForemanInventory_attributes =
     [''_empty_inventory'', ''_empty_cache'', ''__init__'', ''get_host_info'', ''get_inventory'',
      ''read_settings'', ''parse_cli_args'', ''_get_from_id'', ''_get_object_from_id'',
      ''inventory'', ''_cache'', ''base_url'', ''username'', ''password'', ''client'', ''args'',
      ''options'']"

definition self_attr :: "string \<Rightarrow> pyerror + string" where
  "self_attr name = (if name \<in> set ForemanInventory_attributes then Inr name else Inl AttributeError)"

definition call1 :: "client \<Rightarrow> string \<Rightarrow> json \<Rightarrow> json prog" where
  "call1 c name arg = (if name = ''get_host_info'' then get_host_info c arg else liftP (Inl TypeError))"

text \<open>The grouping is a \<^verbatim>\<open>defaultdict(list)\<close>: a missing key starts with the empty list.\<close>

type_synonym groups = "(json \<times> json list) list"

definition append_to_group :: "json \<Rightarrow> json \<Rightarrow> groups \<Rightarrow> pyerror + groups" where
  "append_to_group host_group server_name groups =
     (if \<not> hashable host_group then Inl TypeError
      else Inr (AList.update host_group
                  ((case map_of groups host_group of None \<Rightarrow> [] | Some names \<Rightarrow> names) @ [server_name])
                  groups))"

definition group_host :: "client \<Rightarrow> json \<Rightarrow> groups \<Rightarrow> groups prog" where
  "group_host c host groups =
     bindP (liftP (self_attr ''_get_hostgroup_from_id'')) (\<lambda>meth.
     bindP (liftP (py_get host ''host'')) (\<lambda>h1.
     bindP (liftP (py_get h1 ''hostgroup_id'')) (\<lambda>hostgroup_id.
     bindP (call1 c meth hostgroup_id) (\<lambda>host_group.
     bindP (liftP (py_get host ''host'')) (\<lambda>h2.
     bindP (liftP (py_get h2 ''name'')) (\<lambda>server_name.
       liftP (append_to_group host_group server_name groups)))))))"

fun group_hosts :: "client \<Rightarrow> json list \<Rightarrow> groups \<Rightarrow> groups prog" where
  "group_hosts c [] groups st = (Inr groups, st)"
| "group_hosts c (host # rest) groups st =
     (case group_host c host groups st of
        (Inl e, st') \<Rightarrow> (Inl e, st')
      | (Inr groups', st') \<Rightarrow> group_hosts c rest groups' st')"

definition get_inventory :: "client \<Rightarrow> state \<Rightarrow> ((pyerror + groups) \<times> state) option" where
  "get_inventory c st =
     (case fetch_pages c 1 [] st of
        None \<Rightarrow> None
      | Some (hosts, st1) \<Rightarrow>
          Some (if length hosts < 1 then (Inr [], st1) else group_hosts c hosts [] st1))"

text \<open>
  \<^verbatim>\<open>read_settings\<close>. The configuration is what the parser holds after reading the ini
  file that the path names (nothing at all when the file is missing): the sections with
  their options, the options of the section \<^verbatim>\<open>DEFAULT\<close>, which every section falls back
  on, and what the parser's interpolation makes of a raw value, a string or an error.
  \<^verbatim>\<open>config.get\<close> raises for a section that is not there, for an option that neither the
  section nor the defaults have, and when the interpolation does.
\<close>

record config =
  sections :: "(string \<times> (string \<times> string) list) list"
  defaults :: "(string \<times> string) list"
  interpolate :: "string \<Rightarrow> pyerror + string"

definition config_get :: "config \<Rightarrow> string \<Rightarrow> string \<Rightarrow> pyerror + string" where
  "config_get cfg section opt =
     (case map_of (sections cfg) section of
        None \<Rightarrow> Inl NoSectionError
      | Some options \<Rightarrow>
          (case map_of options opt of
             Some v \<Rightarrow> interpolate cfg v
           | None \<Rightarrow>
               (case map_of (defaults cfg) opt of
                  Some v \<Rightarrow> interpolate cfg v
                | None \<Rightarrow> Inl NoOptionError)))"

definition read_settings :: "config \<Rightarrow> unit prog" where
  "read_settings cfg st =
     (case config_get cfg ''foreman'' ''base_url'' of
        Inl e \<Rightarrow> (Inl e, st)
      | Inr b \<Rightarrow>
          let st1 = st\<lparr>base_url := Some b\<rparr> in
          (case config_get cfg ''foreman'' ''username'' of
             Inl e \<Rightarrow> (Inl e, st1)
           | Inr u \<Rightarrow>
               let st2 = st1\<lparr>username := Some u\<rparr> in
               (case config_get cfg ''foreman'' ''password'' of
                  Inl e \<Rightarrow> (Inl e, st2)
                | Inr p \<Rightarrow> (Inr (), st2\<lparr>password := Some p\<rparr>))))"

text \<open>
  \<^verbatim>\<open>__init__\<close>, the whole run. The command line arrives parsed. An exception that
  nothing catches ends the process with a traceback on standard error and exit status 1;
  \<^verbatim>\<open>sys.exit(1)\<close> ends it with status 1 after the printed lines (for a connection
  error the fixed line and then the text of the exception); a run that reaches
  the last statement prints the document and ends with status 0. The outcome holds the
  value given to \<^verbatim>\<open>json.dumps\<close>, not its text.
\<close>

record cli_args =
  arg_list :: bool
  arg_host :: "string option"

datatype printed = HostRecord json | Grouping groups | EmptyDict

datatype outcome =
    Printed printed
  | SysExit nat "string list"
  | Uncaught pyerror

fun exit_code :: "outcome \<Rightarrow> nat" where
  "exit_code (Printed _) = 0"
| "exit_code (SysExit n _) = n"
| "exit_code (Uncaught _) = 1"

fun diagnostic :: "outcome \<Rightarrow> bool" where
  "diagnostic (Printed _) = False"
| "diagnostic (SysExit _ msgs) = (msgs \<noteq> [])"
| "diagnostic (Uncaught _) = True"

definition init_state :: state where
  "init_state = \<lparr>inventory = empty_inventory, cache = empty_cache,
     base_url = None, username = None, password = None, calls = []\<rparr>"

fun truthy :: "string option \<Rightarrow> bool" where
  "truthy None = False"
| "truthy (Some s) = (s \<noteq> [])"

fun option_value :: "string option \<Rightarrow> json" where
  "option_value None = JNull"
| "option_value (Some s) = JStr s"

definition ForemanInventory_init ::
  "(string \<Rightarrow> string \<times> string \<Rightarrow> pyerror + client) \<Rightarrow> config \<Rightarrow> cli_args \<Rightarrow> (outcome \<times> state) option" where
  "ForemanInventory_init foreman cfg args =
     (case read_settings cfg init_state of
        (Inl e, st1) \<Rightarrow> Some (Uncaught e, st1)
      | (Inr _, st1) \<Rightarrow>
          (case (base_url st1, username st1, password st1) of
             (Some b, Some u, Some p) \<Rightarrow>
               let st2 = st1\<lparr>calls := calls st1 @ [Connect b u p]\<rparr> in
               (case foreman b (u, p) of
                  Inl e \<Rightarrow>
                    (case e of
                       ConnectionError msg \<Rightarrow>
                         Some (SysExit 1
                           [''It looks like Foreman'' @ [CHR 0x27] @ ''s API is unreachable.'', msg], st2)
                     | _ \<Rightarrow> Some (Uncaught e, st2))
                | Inr c \<Rightarrow>
                    if truthy (arg_host args) then
                      (case get_host_info c (option_value (arg_host args)) st2 of
                         (Inl e, st3) \<Rightarrow> Some (Uncaught e, st3)
                       | (Inr host_desc, st3) \<Rightarrow> Some (Printed (HostRecord host_desc), st3))
                    else if arg_list args then
                      (case get_inventory c st2 of
                         None \<Rightarrow> None
                       | Some (Inl e, st3) \<Rightarrow> Some (Uncaught e, st3)
                       | Some (Inr groups, st3) \<Rightarrow> Some (Printed (Grouping groups), st3))
                    else Some (Printed EmptyDict, st2))
           | _ \<Rightarrow>
               Some (SysExit 1
                 [''Could not find values for Foreman base_url, username or password.'',
                  ''They must be specified via ini file.''], st1)))"

section \<open>Observations on a run\<close>

text \<open>What the cache holds for a reference type and an identifier.\<close>

definition cached :: "state \<Rightarrow> string \<Rightarrow> json \<Rightarrow> json option" where
  "cached st obj_type obj_id =
     (case map_of (cache st) obj_type of None \<Rightarrow> None | Some bucket \<Rightarrow> map_of bucket obj_id)"

text \<open>How many times the log has the show request for a reference type and an identifier.\<close>

definition show_count :: "state \<Rightarrow> string \<Rightarrow> json \<Rightarrow> nat" where
  "show_count st obj_type obj_id =
     length (filter (\<lambda>x. x = Show (''show_'' @ obj_type @ ''s'') obj_id) (calls st))"

text \<open>
  A sequence of lookups made one after the other in one run. No method of the script
  catches an exception, so the first lookup that raises ends the sequence.
\<close>

fun resolve_all :: "client \<Rightarrow> (string \<times> json) list \<Rightarrow> json list prog" where
  "resolve_all c [] st = (Inr [], st)"
| "resolve_all c (r # rs) st =
     (case get_object_from_id c (fst r) (snd r) st of
        (Inl e, st') \<Rightarrow> (Inl e, st')
      | (Inr v, st') \<Rightarrow>
          (case resolve_all c rs st' of
             (Inl e, st'') \<Rightarrow> (Inl e, st'')
           | (Inr vs, st'') \<Rightarrow> (Inr (v # vs), st'')))"

text \<open>
  The invariant that ties the log to the cache while no lookup has raised: nothing stored
  is \<^verbatim>\<open>None\<close>, no show request has been made twice, and what has been requested is
  stored.
\<close>

definition consistent :: "state \<Rightarrow> bool" where
  "consistent st =
     ((\<forall>t i v. cached st t i = Some v \<longrightarrow> v \<noteq> JNull)
      \<and> (\<forall>t i. show_count st t i \<le> 1)
      \<and> (\<forall>t i. 0 < show_count st t i \<longrightarrow> cached st t i \<noteq> None))"

section \<open>Concrete fleets and clients\<close>

text \<open>The fleet of three hosts, two of them in hostgroup 1, whose label is web.\<close>

definition fleet_hosts :: "json list" where
  "fleet_hosts =
     [JObj [(''host'', JObj [(''name'', JStr ''a''), (''hostgroup_id'', JInt 1)])],
      JObj [(''host'', JObj [(''name'', JStr ''b''), (''hostgroup_id'', JInt 1)])],
      JObj [(''host'', JObj [(''name'', JStr ''c''), (''hostgroup_id'', JNull)])]]"

definition show_web :: "json \<Rightarrow> pyerror + json" where
  "show_web i = Inr (JObj [(''hostgroup'', JObj [(''id'', i), (''label'', JStr ''web'')])])"

definition fleet_client :: client where
  "fleet_client =
     \<lparr>index_hosts = (\<lambda>page. if page = 1 then fleet_hosts else []),
      methods = map_of [(''show_hostgroups'', show_web)]\<rparr>"

text \<open>A Foreman without hosts.\<close>

definition empty_client :: client where
  "empty_client = \<lparr>index_hosts = (\<lambda>page. []), methods = map_of []\<rparr>"

text \<open>A host in the environment Production that refers to nothing else.\<close>

definition plain_host :: json where
  "plain_host =
     JObj [(''id'', JInt 7), (''ip'', JStr ''10.0.0.7''), (''name'', JStr ''a''),
           (''environment'', JObj [(''environment'', JObj [(''name'', JStr ''Production'')])]),
           (''operatingsystem_id'', JNull), (''model_id'', JNull),
           (''compute_resource_id'', JNull), (''domain_id'', JNull), (''subnet_id'', JNull),
           (''architecture_id'', JNull), (''hostgroup_id'', JNull)]"

definition show_plain_host :: "json \<Rightarrow> pyerror + json" where
  "show_plain_host i = Inr (JObj [(''host'', plain_host)])"

definition show_production :: "json \<Rightarrow> pyerror + json" where
  "show_production i = Inr (JObj [(''environment'', JObj [(''name'', JStr ''Production'')])])"

definition host_client :: client where
  "host_client =
     \<lparr>index_hosts = (\<lambda>page. []),
      methods = map_of [(''show_hosts'', show_plain_host), (''show_environments'', show_production)]\<rparr>"

text \<open>A Foreman that answers a request for a host it does not know with an empty document.\<close>

definition show_nothing :: "json \<Rightarrow> pyerror + json" where
  "show_nothing i = Inr (JObj [])"

definition unknown_host_client :: client where
  "unknown_host_client =
     \<lparr>index_hosts = (\<lambda>page. []), methods = map_of [(''show_hosts'', show_nothing)]\<rparr>"

text \<open>A complete configuration, one without the user name, and the two request modes.\<close>

definition full_config :: config where
  "full_config =
     \<lparr>sections = [(''foreman'', [(''base_url'', ''http://foreman''), (''username'', ''admin''),
                                (''password'', ''secret'')])],
      defaults = [], interpolate = Inr\<rparr>"

definition no_username_config :: config where
  "no_username_config =
     \<lparr>sections = [(''foreman'', [(''base_url'', ''http://foreman''), (''password'', ''secret'')])],
      defaults = [], interpolate = Inr\<rparr>"

definition list_mode :: cli_args where
  "list_mode = \<lparr>arg_list = True, arg_host = None\<rparr>"

definition host_mode :: "string \<Rightarrow> cli_args" where
  "host_mode h = \<lparr>arg_list = True, arg_host = Some h\<rparr>"

text \<open>Pages of two hosts, then one, then none.\<close>

definition named_host :: "string \<Rightarrow> json" where
  "named_host n = JObj [(''host'', JObj [(''name'', JStr n), (''hostgroup_id'', JNull)])]"

definition paged_client :: client where
  "paged_client =
     \<lparr>index_hosts = (\<lambda>page. if page = 1 then [named_host ''h1'', named_host ''h2'']
                              else if page = 2 then [named_host ''h3''] else []),
      methods = map_of []\<rparr>"

section \<open>Basic facts\<close>

lemma init_cache: "cache init_state = map (\<lambda>k. (k, [])) cache_keys"
  by (simp add: init_state_def empty_cache_def cache_keys_def)

lemma init_calls: "calls init_state = []"
  by (simp add: init_state_def)

text \<open>The lookup of the unbound local ends \<^verbatim>\<open>_get_from_id\<close> whatever its arguments are.\<close>

lemma get_from_id_raises: "get_from_id c param_name param_id st = (Inl UnboundLocalError, st)"
  by (simp add: get_from_id_def bindP_def liftP_def load_local_def)

text \<open>The body of the grouping loop ends at the lookup of the missing method.\<close>

lemma group_host_raises: "group_host c host groups st = (Inl AttributeError, st)"
  by (simp add: group_host_def bindP_def liftP_def self_attr_def ForemanInventory_attributes_def)

section \<open>Pagination\<close>

text \<open>From any page \<open>p\<close> on, the loop runs up to the first empty page \<open>k\<close>.\<close>

lemma fetch_pages_upto:
  assumes "index_hosts c k = []" and "p \<le> k"
    and "\<forall>q. p \<le> q \<and> q < k \<longrightarrow> index_hosts c q \<noteq> []"
  shows "fetch_pages c p acc st =
           Some (acc @ concat (map (index_hosts c) [p..<k]),
                 st\<lparr>calls := calls st @ map IndexHosts [p..<Suc k]\<rparr>)"
  using assms
proof (induction "k - p" arbitrary: p acc st)
  case 0
  then have "p = k" by simp
  with 0 show ?case
    by (subst fetch_pages.simps) simp
next
  case (Suc n)
  then have lt: "p < k" and ne: "index_hosts c p \<noteq> []" by auto
  have step: "fetch_pages c p acc st =
      fetch_pages c (p + 1) (acc @ index_hosts c p) (st\<lparr>calls := calls st @ [IndexHosts p]\<rparr>)"
    using ne by (subst fetch_pages.simps) (simp add: Let_def)
  have ih: "fetch_pages c (p + 1) (acc @ index_hosts c p) (st\<lparr>calls := calls st @ [IndexHosts p]\<rparr>) =
      Some ((acc @ index_hosts c p) @ concat (map (index_hosts c) [p + 1..<k]),
            (st\<lparr>calls := calls st @ [IndexHosts p]\<rparr>)
              \<lparr>calls := calls (st\<lparr>calls := calls st @ [IndexHosts p]\<rparr>) @ map IndexHosts [p + 1..<Suc k]\<rparr>)"
    using Suc.hyps(2) lt Suc.prems by (intro Suc.hyps(1)) auto
  have l1: "[p..<k] = p # [p + 1..<k]" using lt by (simp add: upt_conv_Cons)
  have l2: "[p..<Suc k] = p # [p + 1..<Suc k]" using lt by (simp add: upt_conv_Cons del: upt_Suc)
  show ?case
    unfolding step ih l1 l2 by simp
qed

text \<open>The grouping loop makes no request of its own.\<close>

lemma group_hosts_calls: "calls (snd (group_hosts c hosts groups st)) = calls st"
  by (cases hosts) (simp_all add: group_host_raises)

text \<open>
  C4. When some page from page 1 on is empty, the loop of \<^verbatim>\<open>get_inventory\<close> returns.
  With \<open>k\<close> the first empty page, it has asked for the pages 1 to \<open>k\<close> in this order and
  for nothing else, every page before \<open>k\<close> had hosts, and the accumulated list is the
  concatenation of the pages before \<open>k\<close> in order. \<^verbatim>\<open>get_inventory\<close> itself returns:
  its log is the log it started with followed by the requests for the pages 1 to \<open>k\<close>,
  and its result is the empty grouping when the accumulated list is empty and what the
  grouping loop makes of the accumulated list otherwise.
\<close>

theorem pagination_stops_at_first_empty_page:
  assumes "\<exists>p\<ge>1. index_hosts c p = []"
  shows "fetch_pages c 1 [] st =
           Some (concat (map (index_hosts c) [1..<(LEAST p. 1 \<le> p \<and> index_hosts c p = [])]),
                 st\<lparr>calls := calls st @ map IndexHosts [1..<Suc (LEAST p. 1 \<le> p \<and> index_hosts c p = [])]\<rparr>)
         \<and> (\<forall>q. 1 \<le> q \<and> q < (LEAST p. 1 \<le> p \<and> index_hosts c p = []) \<longrightarrow> index_hosts c q \<noteq> [])
         \<and> index_hosts c (LEAST p. 1 \<le> p \<and> index_hosts c p = []) = []
         \<and> (concat (map (index_hosts c) [1..<(LEAST p. 1 \<le> p \<and> index_hosts c p = [])]) = [] \<longrightarrow>
              map_option fst (get_inventory c st) = Some (Inr []))
         \<and> get_inventory c st =
             Some (if concat (map (index_hosts c) [1..<(LEAST p. 1 \<le> p \<and> index_hosts c p = [])]) = []
                   then (Inr [], st\<lparr>calls := calls st @ map IndexHosts [1..<Suc (LEAST p. 1 \<le> p \<and> index_hosts c p = [])]\<rparr>)
                   else group_hosts c (concat (map (index_hosts c) [1..<(LEAST p. 1 \<le> p \<and> index_hosts c p = [])])) []
                          (st\<lparr>calls := calls st @ map IndexHosts [1..<Suc (LEAST p. 1 \<le> p \<and> index_hosts c p = [])]\<rparr>))
         \<and> map_option (calls \<circ> snd) (get_inventory c st) =
             Some (calls st @ map IndexHosts [1..<Suc (LEAST p. 1 \<le> p \<and> index_hosts c p = [])])"
proof -
  define k where "k = (LEAST p. 1 \<le> p \<and> index_hosts c p = [])"
  from assms obtain p where p: "1 \<le> p \<and> index_hosts c p = []" by blast
  have k: "1 \<le> k \<and> index_hosts c k = []"
    unfolding k_def using p by (rule LeastI)
  have least: "\<forall>q. 1 \<le> q \<and> q < k \<longrightarrow> index_hosts c q \<noteq> []"
  proof (intro allI impI)
    fix q assume q: "1 \<le> q \<and> q < k"
    then have "q < (LEAST p. 1 \<le> p \<and> index_hosts c p = [])"
      unfolding k_def by simp
    then have "\<not> (1 \<le> q \<and> index_hosts c q = [])"
      by (rule not_less_Least)
    with q show "index_hosts c q \<noteq> []" by simp
  qed
  have f: "fetch_pages c 1 [] st =
      Some ([] @ concat (map (index_hosts c) [1..<k]), st\<lparr>calls := calls st @ map IndexHosts [1..<Suc k]\<rparr>)"
    by (rule fetch_pages_upto) (use k least in simp_all)
  have g: "concat (map (index_hosts c) [1..<k]) = [] \<longrightarrow> map_option fst (get_inventory c st) = Some (Inr [])"
    unfolding get_inventory_def f by simp
  have h: "get_inventory c st =
      Some (if concat (map (index_hosts c) [1..<k]) = []
            then (Inr [], st\<lparr>calls := calls st @ map IndexHosts [1..<Suc k]\<rparr>)
            else group_hosts c (concat (map (index_hosts c) [1..<k])) []
                   (st\<lparr>calls := calls st @ map IndexHosts [1..<Suc k]\<rparr>))"
    unfolding get_inventory_def f by simp
  have l: "map_option (calls \<circ> snd) (get_inventory c st) = Some (calls st @ map IndexHosts [1..<Suc k])"
    unfolding h by (simp add: group_hosts_calls del: upt_Suc)
  have "fetch_pages c 1 [] st =
           Some (concat (map (index_hosts c) [1..<k]),
                 st\<lparr>calls := calls st @ map IndexHosts [1..<Suc k]\<rparr>)
         \<and> (\<forall>q. 1 \<le> q \<and> q < k \<longrightarrow> index_hosts c q \<noteq> [])
         \<and> index_hosts c k = []
         \<and> (concat (map (index_hosts c) [1..<k]) = [] \<longrightarrow>
              map_option fst (get_inventory c st) = Some (Inr []))
         \<and> get_inventory c st =
             Some (if concat (map (index_hosts c) [1..<k]) = []
                   then (Inr [], st\<lparr>calls := calls st @ map IndexHosts [1..<Suc k]\<rparr>)
                   else group_hosts c (concat (map (index_hosts c) [1..<k])) []
                          (st\<lparr>calls := calls st @ map IndexHosts [1..<Suc k]\<rparr>))
         \<and> map_option (calls \<circ> snd) (get_inventory c st) =
             Some (calls st @ map IndexHosts [1..<Suc k])"
    using f k least g h l by (simp del: upt_Suc)
  then show ?thesis unfolding k_def .
qed

theorem pagination_stops_at_first_empty_page_witness:
  "(\<exists>p\<ge>1. index_hosts paged_client p = [])
   \<and> fetch_pages paged_client 1 [] init_state =
       Some ([named_host ''h1'', named_host ''h2'', named_host ''h3''],
             init_state\<lparr>calls := [IndexHosts 1, IndexHosts 2, IndexHosts 3]\<rparr>)
   \<and> map_option (calls \<circ> snd) (get_inventory paged_client init_state) =
       Some [IndexHosts 1, IndexHosts 2, IndexHosts 3]"
proof -
  have ex: "\<exists>p\<ge>1. index_hosts paged_client p = []"
    by (rule exI [of _ 3]) (simp add: paged_client_def)
  have k: "(LEAST p. 1 \<le> p \<and> index_hosts paged_client p = []) = 3"
    by (rule Least_equality) (auto simp: paged_client_def split: if_splits)
  have l: "[1..<3] = [1, 2::nat]" "[1..<Suc 3] = [1, 2, 3::nat]"
    by (simp_all add: upt_conv_Cons)
  have "fetch_pages paged_client 1 [] init_state =
       Some ([named_host ''h1'', named_host ''h2'', named_host ''h3''],
             init_state\<lparr>calls := [IndexHosts 1, IndexHosts 2, IndexHosts 3]\<rparr>)"
    and "map_option (calls \<circ> snd) (get_inventory paged_client init_state) =
       Some [IndexHosts 1, IndexHosts 2, IndexHosts 3]"
    using pagination_stops_at_first_empty_page [OF ex, of init_state]
    unfolding k l by (simp_all add: paged_client_def init_state_def group_host_raises)
  with ex show ?thesis by simp
qed

section \<open>Evaluations on the concrete fleets\<close>

lemma fetch_fleet:
  "fetch_pages fleet_client 1 [] init_state =
     Some (fleet_hosts, init_state\<lparr>calls := [IndexHosts 1, IndexHosts 2]\<rparr>)"
  apply (subst fetch_pages.simps)
  apply (simp add: fleet_client_def fleet_hosts_def init_state_def)
  apply (subst fetch_pages.simps)
  apply (simp add: fleet_client_def fleet_hosts_def init_state_def)
  done

text \<open>
  C1. On the fleet of the hosts a and b in hostgroup 1 (label web) and the host c without
  hostgroup, \<^verbatim>\<open>get_inventory\<close> fetches the page of three hosts and the empty page, and
  then raises \<^verbatim>\<open>AttributeError\<close> at the first host: the loop calls
  \<^verbatim>\<open>self._get_hostgroup_from_id\<close>, which the class does not define. No grouping is
  returned.
\<close>

theorem list_mode_fleet_raises:
  "get_inventory fleet_client init_state =
     Some (Inl AttributeError, init_state\<lparr>calls := [IndexHosts 1, IndexHosts 2]\<rparr>)"
  unfolding get_inventory_def fetch_fleet
  by (simp add: fleet_hosts_def group_host_raises)

lemma read_full: "read_settings full_config init_state =
   (Inr (), init_state\<lparr>base_url := Some ''http://foreman'', username := Some ''admin'', password := Some ''secret''\<rparr>)"
  by (simp add: read_settings_def config_get_def full_config_def)

lemma fetch_empty:
  "index_hosts c 1 = [] \<Longrightarrow> fetch_pages c 1 [] st = Some ([], st\<lparr>calls := calls st @ [IndexHosts 1]\<rparr>)"
  by (subst fetch_pages.simps) simp

text \<open>
  C2. In list mode on a Foreman without hosts the run prints the empty grouping, which has
  no key \<^verbatim>\<open>_meta\<close>: \<^verbatim>\<open>get_inventory\<close> returns its local \<^verbatim>\<open>groups\<close>, and the
  document with \<^verbatim>\<open>_meta\<close> that \<^verbatim>\<open>__init__\<close> stores in \<^verbatim>\<open>self.inventory\<close> is
  never printed.
\<close>

theorem list_mode_empty_fleet_no_meta:
  "map_option fst (ForemanInventory_init (\<lambda>b up. Inr empty_client) full_config list_mode)
     = Some (Printed (Grouping []))
   \<and> map_of ([] :: groups) (JStr ''_meta'') = None
   \<and> inventory init_state = JObj [(''_meta'', JObj [(''hostvars'', JObj [])])]"
proof -
  have "index_hosts empty_client 1 = []" by (simp add: empty_client_def)
  then have "\<And>st. fetch_pages empty_client 1 [] st = Some ([], st\<lparr>calls := calls st @ [IndexHosts 1]\<rparr>)"
    by (rule fetch_empty)
  then have run: "map_option fst (ForemanInventory_init (\<lambda>b up. Inr empty_client) full_config list_mode)
     = Some (Printed (Grouping []))"
    unfolding ForemanInventory_init_def read_full
    by (simp add: list_mode_def get_inventory_def)
  have inv: "inventory init_state = JObj [(''_meta'', JObj [(''hostvars'', JObj [])])]"
    by (simp add: init_state_def empty_inventory_def)
  show ?thesis using run inv by simp
qed

text \<open>
  C3. For a host all of whose reference identifiers are null, \<^verbatim>\<open>get_host_info\<close> does not
  return a record with null fields: after the host has been fetched and cached, the first
  call of \<^verbatim>\<open>_get_from_id\<close> (for the operating system, whose identifier is null) raises
  \<^verbatim>\<open>UnboundLocalError\<close>.
\<close>

theorem host_info_absent_references_raises:
  "get_host_info host_client (JStr ''a'') init_state =
     (Inl UnboundLocalError,
      init_state\<lparr>calls := [Show ''show_hosts'' (JStr ''a'')],
        cache := AList.update ''host'' [(JStr ''a'', JObj [(''host'', plain_host)])] (cache init_state)\<rparr>)
   \<and> py_get plain_host ''operatingsystem_id'' = Inr JNull"
  by (simp add: get_host_info_def bindP_def liftP_def returnP_def get_object_from_id_def
      init_cache init_calls cache_keys_def host_client_def show_plain_host_def plain_host_def
      get_from_id_raises)

text \<open>
  C9. For a host in the environment Production, \<^verbatim>\<open>get_host_info\<close> raises
  \<^verbatim>\<open>UnboundLocalError\<close> and gives no record, so no lowercased environment name is put
  out; \<^verbatim>\<open>_get_from_id\<close> asked for an environment raises the same exception before it
  reaches its lowercasing branch. Lowercasing itself maps Production to production.
\<close>

theorem environment_lowercase_unreached:
  "fst (get_host_info host_client (JStr ''a'') init_state) = Inl UnboundLocalError
   \<and> py_get plain_host ''environment'' = Inr (JObj [(''environment'', JObj [(''name'', JStr ''Production'')])])
   \<and> fst (get_from_id host_client ''environment'' (JInt 1) init_state) = Inl UnboundLocalError
   \<and> show_production (JInt 1) = Inr (JObj [(''environment'', JObj [(''name'', JStr ''Production'')])])
   \<and> py_lower (JStr ''Production'') = Inr (JStr ''production'')"
proof -
  have low: "py_lower (JStr ''Production'') = Inr (JStr ''production'')"
    by code_simp
  have "fst (get_host_info host_client (JStr ''a'') init_state) = Inl UnboundLocalError"
    by (simp add: get_host_info_def bindP_def liftP_def returnP_def get_object_from_id_def
        init_cache init_calls cache_keys_def host_client_def show_plain_host_def plain_host_def
        get_from_id_raises low)
  then show ?thesis
    using low by (simp add: plain_host_def get_from_id_raises show_production_def)
qed

section \<open>The cache buckets\<close>

lemma init_buckets: "fst ` set (cache init_state) = set cache_keys"
  by (simp add: init_cache image_image)

lemma get_object_from_id_buckets:
  "fst ` set (cache (snd (get_object_from_id c obj_type obj_id st))) = fst ` set (cache st)"
proof -
  have "map_of (cache st) obj_type = Some b \<Longrightarrow> insert obj_type (fst ` set (cache st)) = fst ` set (cache st)" for b
    by (metis insert_absorb map_of_eq_None_iff option.distinct(1))
  then show ?thesis
    by (auto simp: get_object_from_id_def Let_def dom_update split: option.splits sum.splits)
qed

text \<open>
  C10. In a state whose cache has the nine buckets and no other, a lookup with an identifier
  that is not null and a type that is not one of the nine names raises
  \<^verbatim>\<open>AttributeError\<close> and leaves the state as it was, the log included: no request is
  made. For each of the nine names the bucket is found and the lookup goes on past it: an
  identifier that cannot be a key raises \<^verbatim>\<open>TypeError\<close>, a stored response is unwrapped
  without a request, and for a pair that is not stored the show method of the client, when
  it has one, is called, its exception passed on or the unwrapped response returned. Every
  lookup leaves the set of buckets as it is, so the cache of a run, which starts with the
  nine buckets, has them all along.
\<close>

theorem unknown_type_fails_before_call:
  assumes "fst ` set (cache st) = set cache_keys"
  shows "(obj_type \<notin> set cache_keys \<and> obj_id \<noteq> JNull \<longrightarrow>
            get_object_from_id c obj_type obj_id st = (Inl AttributeError, st))
       \<and> (obj_type \<in> set cache_keys \<longrightarrow> map_of (cache st) obj_type \<noteq> None)
       \<and> fst ` set (cache (snd (get_object_from_id c obj_type obj_id st))) = set cache_keys
       \<and> (obj_type \<in> set cache_keys \<and> obj_id \<noteq> JNull \<and> \<not> hashable obj_id \<longrightarrow>
            get_object_from_id c obj_type obj_id st = (Inl TypeError, st))
       \<and> (obj_type \<in> set cache_keys \<and> obj_id \<noteq> JNull \<and> hashable obj_id
            \<and> cached st obj_type obj_id = Some v \<and> v \<noteq> JNull \<longrightarrow>
            get_object_from_id c obj_type obj_id st = (py_get v obj_type, st))
       \<and> (obj_type \<in> set cache_keys \<and> obj_id \<noteq> JNull \<and> hashable obj_id
            \<and> cached st obj_type obj_id = None
            \<and> methods c (''show_'' @ obj_type @ ''s'') = Some func \<longrightarrow>
            calls (snd (get_object_from_id c obj_type obj_id st)) =
              calls st @ [Show (''show_'' @ obj_type @ ''s'') obj_id]
            \<and> fst (get_object_from_id c obj_type obj_id st) =
              (case func obj_id of Inl e \<Rightarrow> Inl e | Inr resp \<Rightarrow> py_get resp obj_type))"
proof -
  have a: "obj_type \<notin> set cache_keys \<Longrightarrow> map_of (cache st) obj_type = None"
    using assms by (simp add: map_of_eq_None_iff)
  have b: "obj_type \<in> set cache_keys \<Longrightarrow> map_of (cache st) obj_type \<noteq> None"
    using assms by (simp add: map_of_eq_None_iff)
  have unknown: "obj_type \<notin> set cache_keys \<and> obj_id \<noteq> JNull \<longrightarrow>
      get_object_from_id c obj_type obj_id st = (Inl AttributeError, st)"
    using a by (simp add: get_object_from_id_def)
  have unhashable: "obj_type \<in> set cache_keys \<and> obj_id \<noteq> JNull \<and> \<not> hashable obj_id \<longrightarrow>
      get_object_from_id c obj_type obj_id st = (Inl TypeError, st)"
    using b by (auto simp: get_object_from_id_def)
  have hit: "obj_type \<in> set cache_keys \<and> obj_id \<noteq> JNull \<and> hashable obj_id
      \<and> cached st obj_type obj_id = Some v \<and> v \<noteq> JNull \<longrightarrow>
      get_object_from_id c obj_type obj_id st = (py_get v obj_type, st)"
    using b by (auto simp: get_object_from_id_def cached_def)
  have miss: "obj_type \<in> set cache_keys \<and> obj_id \<noteq> JNull \<and> hashable obj_id
      \<and> cached st obj_type obj_id = None
      \<and> methods c (''show_'' @ obj_type @ ''s'') = Some func \<longrightarrow>
      calls (snd (get_object_from_id c obj_type obj_id st)) =
        calls st @ [Show (''show_'' @ obj_type @ ''s'') obj_id]
      \<and> fst (get_object_from_id c obj_type obj_id st) =
        (case func obj_id of Inl e \<Rightarrow> Inl e | Inr resp \<Rightarrow> py_get resp obj_type)"
    using b by (auto simp: get_object_from_id_def cached_def split: sum.splits)
  have buckets: "fst ` set (cache (snd (get_object_from_id c obj_type obj_id st))) = set cache_keys"
    using assms by (simp add: get_object_from_id_buckets)
  from unknown b buckets unhashable hit miss show ?thesis
    by blast
qed

theorem unknown_type_fails_before_call_witness:
  "fst ` set (cache init_state) = set cache_keys
   \<and> ''user'' \<notin> set cache_keys \<and> JInt 1 \<noteq> JNull
   \<and> get_object_from_id host_client ''user'' (JInt 1) init_state = (Inl AttributeError, init_state)
   \<and> ''host'' \<in> set cache_keys \<and> map_of (cache init_state) ''host'' \<noteq> None
   \<and> \<not> hashable (JList [])
   \<and> get_object_from_id host_client ''host'' (JList []) init_state = (Inl TypeError, init_state)
   \<and> hashable (JInt 1) \<and> cached init_state ''host'' (JInt 1) = None
   \<and> methods host_client ''show_hosts'' = Some show_plain_host
   \<and> calls (snd (get_object_from_id host_client ''host'' (JInt 1) init_state)) = [Show ''show_hosts'' (JInt 1)]
   \<and> fst (get_object_from_id host_client ''host'' (JInt 1) init_state) = Inr plain_host"
proof -
  have keys: "''user'' \<notin> set cache_keys" "''host'' \<in> set cache_keys"
    by (simp_all add: cache_keys_def)
  have m: "methods host_client (''show_'' @ ''host'' @ ''s'') = Some show_plain_host"
    by (simp add: host_client_def)
  have n: "cached init_state ''host'' (JInt 1) = None"
    by (simp add: cached_def init_cache cache_keys_def)
  show ?thesis
    using unknown_type_fails_before_call [OF init_buckets, of "''user''" "JInt 1" host_client]
      unknown_type_fails_before_call [OF init_buckets, of "''host''" "JList []" host_client]
      unknown_type_fails_before_call [OF init_buckets, of "''host''" "JInt 1" host_client _ show_plain_host]
      keys m n
    by (simp add: init_buckets init_calls show_plain_host_def)
qed

section \<open>A lookup that misses the cache\<close>






section \<open>The run as a whole\<close>

lemma get_object_from_id_fst_cache:
  "cache st = cache st' \<Longrightarrow>
   fst (get_object_from_id c obj_type obj_id st) = fst (get_object_from_id c obj_type obj_id st')"
  by (simp add: get_object_from_id_def Let_def split: option.splits sum.splits)

lemma read_settings_complete:
  assumes "config_get cfg ''foreman'' ''base_url'' = Inr b"
    and "config_get cfg ''foreman'' ''username'' = Inr u"
    and "config_get cfg ''foreman'' ''password'' = Inr p"
  shows "read_settings cfg st = (Inr (), st\<lparr>base_url := Some b, username := Some u, password := Some p\<rparr>)"
  using assms by (simp add: read_settings_def)

lemma read_settings_incomplete:
  assumes "isl (config_get cfg ''foreman'' ''base_url'') \<or> isl (config_get cfg ''foreman'' ''username'')
     \<or> isl (config_get cfg ''foreman'' ''password'')"
  shows "\<exists>e st'. read_settings cfg st = (Inl e, st') \<and> calls st' = calls st"
  by (cases "config_get cfg ''foreman'' ''base_url''"; cases "config_get cfg ''foreman'' ''username''";
      cases "config_get cfg ''foreman'' ''password''")
     (use assms in \<open>simp_all add: read_settings_def\<close>)

text \<open>
  C7. With a complete configuration, a client that could be built and a host given on
  the command line, when the lookup of the host yields \<^verbatim>\<open>None\<close>,
  \<^verbatim>\<open>get_host_info\<close> returns the empty record, the run prints it and the exit status
  is 0.
\<close>

theorem unknown_host_empty_record:
  assumes "config_get cfg ''foreman'' ''base_url'' = Inr b"
    and "config_get cfg ''foreman'' ''username'' = Inr u"
    and "config_get cfg ''foreman'' ''password'' = Inr p"
    and "foreman b (u, p) = Inr c"
    and "arg_host args = Some h" and "h \<noteq> []"
    and "fst (get_object_from_id c ''host'' (JStr h) init_state) = Inr JNull"
  shows "fst (get_host_info c (JStr h) init_state) = Inr (JObj [])
       \<and> map_option fst (ForemanInventory_init foreman cfg args) = Some (Printed (HostRecord (JObj [])))
       \<and> map_option (exit_code \<circ> fst) (ForemanInventory_init foreman cfg args) = Some 0"
proof -
  have host: "fst (get_object_from_id c ''host'' (JStr h) st) = Inr JNull \<Longrightarrow>
      fst (get_host_info c (JStr h) st) = Inr (JObj [])" for st
    by (cases "get_object_from_id c ''host'' (JStr h) st")
       (simp add: get_host_info_def bindP_def returnP_def)
  define st2 where "st2 = init_state\<lparr>base_url := Some b, username := Some u, password := Some p,
     calls := calls init_state @ [Connect b u p]\<rparr>"
  have "fst (get_object_from_id c ''host'' (JStr h) st2) = Inr JNull"
    using assms(7) get_object_from_id_fst_cache [of st2 init_state c "''host''" "JStr h"]
    by (simp add: st2_def)
  then have r: "fst (get_host_info c (JStr h) st2) = Inr (JObj [])"
    by (rule host)
  have run: "map_option fst (ForemanInventory_init foreman cfg args) = Some (Printed (HostRecord (JObj [])))"
    using r assms(4,5,6)
    unfolding ForemanInventory_init_def read_settings_complete [OF assms(1,2,3)]
    by (cases "get_host_info c (JStr h) st2") (simp add: st2_def)
  then have "map_option (exit_code \<circ> fst) (ForemanInventory_init foreman cfg args) = Some 0"
    by (cases "ForemanInventory_init foreman cfg args") auto
  with run host [OF assms(7)] show ?thesis by simp
qed

theorem unknown_host_empty_record_witness:
  "config_get full_config ''foreman'' ''base_url'' = Inr ''http://foreman''
   \<and> config_get full_config ''foreman'' ''username'' = Inr ''admin''
   \<and> config_get full_config ''foreman'' ''password'' = Inr ''secret''
   \<and> arg_host (host_mode ''ghost'') = Some ''ghost''
   \<and> fst (get_object_from_id unknown_host_client ''host'' (JStr ''ghost'') init_state) = Inr JNull
   \<and> fst (get_host_info unknown_host_client (JStr ''ghost'') init_state) = Inr (JObj [])
   \<and> map_option (exit_code \<circ> fst)
        (ForemanInventory_init (\<lambda>b up. Inr unknown_host_client) full_config (host_mode ''ghost'')) = Some 0"
proof -
  have 1: "config_get full_config ''foreman'' ''base_url'' = Inr ''http://foreman''"
    and 2: "config_get full_config ''foreman'' ''username'' = Inr ''admin''"
    and 3: "config_get full_config ''foreman'' ''password'' = Inr ''secret''"
    by (simp_all add: config_get_def full_config_def)
  have 4: "(\<lambda>b up. Inr unknown_host_client) ''http://foreman'' (''admin'', ''secret'') = (Inr unknown_host_client :: pyerror + client)"
    by simp
  have 5: "arg_host (host_mode ''ghost'') = Some ''ghost''"
    by (simp add: host_mode_def)
  have 6: "''ghost'' \<noteq> []" by simp
  have 7: "fst (get_object_from_id unknown_host_client ''host'' (JStr ''ghost'') init_state) = Inr JNull"
    by (simp add: get_object_from_id_def init_cache cache_keys_def unknown_host_client_def show_nothing_def)
  show ?thesis
    using unknown_host_empty_record [OF 1 2 3 4 5 6 7] 1 2 3 5 7 by simp
qed

text \<open>
  C8. When \<^verbatim>\<open>base_url\<close>, \<^verbatim>\<open>username\<close> or \<^verbatim>\<open>password\<close> is missing from the
  section \<^verbatim>\<open>foreman\<close>, whatever the client and the command line are, the run ends
  with an exception that nothing catches: the exit status is not 0, the traceback is the
  diagnostic, and the log is empty, the client not even having been built.
\<close>

theorem missing_setting_exits_nonzero:
  assumes "isl (config_get cfg ''foreman'' ''base_url'') \<or> isl (config_get cfg ''foreman'' ''username'')
     \<or> isl (config_get cfg ''foreman'' ''password'')"
  shows "\<exists>e st. ForemanInventory_init foreman cfg args = Some (Uncaught e, st)
           \<and> calls st = [] \<and> exit_code (Uncaught e) \<noteq> 0 \<and> diagnostic (Uncaught e)"
proof -
  from read_settings_incomplete [OF assms, of init_state]
  obtain e st' where "read_settings cfg init_state = (Inl e, st')" and "calls st' = []"
    by (auto simp: init_calls)
  then show ?thesis
    by (simp add: ForemanInventory_init_def)
qed

theorem missing_setting_exits_nonzero_witness:
  "isl (config_get no_username_config ''foreman'' ''username'')
   \<and> (\<exists>e st. ForemanInventory_init (\<lambda>b up. Inr fleet_client) no_username_config list_mode = Some (Uncaught e, st)
           \<and> calls st = [] \<and> exit_code (Uncaught e) \<noteq> 0 \<and> diagnostic (Uncaught e))"
proof -
  have 1: "isl (config_get no_username_config ''foreman'' ''username'')"
    by (simp add: config_get_def no_username_config_def)
  then have "isl (config_get no_username_config ''foreman'' ''base_url'')
     \<or> isl (config_get no_username_config ''foreman'' ''username'')
     \<or> isl (config_get no_username_config ''foreman'' ''password'')"
    by simp
  from missing_setting_exits_nonzero [OF this, of "\<lambda>b up. Inr fleet_client" list_mode] 1
  show ?thesis by simp
qed

section \<open>The cache is written once\<close>

text \<open>A state with the empty cache and no show request in its log, such as the state a
  run starts with, satisfies the invariant.\<close>

lemma empty_cache_eq: "empty_cache = map (\<lambda>k. (k, [])) cache_keys"
  by (simp add: empty_cache_def cache_keys_def)

lemma consistent_start:
  assumes "cache st = empty_cache" and "\<forall>m i. Show m i \<notin> set (calls st)"
  shows "consistent st"
proof -
  have "cached st t i = None" for t i
    using assms(1) by (auto simp: cached_def empty_cache_eq split: option.splits dest!: map_of_SomeD)
  moreover have "show_count st t i = 0" for t i
    using assms(2) by (auto simp: show_count_def filter_empty_conv)
  ultimately show ?thesis
    by (simp add: consistent_def)
qed

text \<open>The two ways a lookup can leave the state: untouched, or with one more request in
  the log for a pair that was not stored, in which case a response may have been stored.\<close>

lemma cached_update:
  "map_of (cache st) t0 = Some bucket \<Longrightarrow>
   cached (st\<lparr>calls := cs, cache := AList.update t0 (AList.update i0 resp bucket) (cache st)\<rparr>) t i =
     (if t = t0 \<and> i = i0 then Some resp else cached st t i)"
  by (simp add: cached_def update_conv')

lemma get_object_from_id_cases:
  assumes run: "get_object_from_id c t0 i0 st = (r, st')"
  shows "st' = st
       \<or> ((cached st t0 i0 = None \<or> cached st t0 i0 = Some JNull)
          \<and> calls st' = calls st @ [Show (''show_'' @ t0 @ ''s'') i0]
          \<and> ((cache st' = cache st \<and> isl r)
             \<or> (\<exists>resp. r = py_get resp t0
                  \<and> (\<forall>t i. cached st' t i = (if t = t0 \<and> i = i0 then Some resp else cached st t i)))))"
proof (cases "i0 = JNull \<or> map_of (cache st) t0 = None \<or> \<not> hashable i0")
  case True
  with run have "st' = st"
    by (auto simp: get_object_from_id_def split: option.splits if_splits)
  then show ?thesis by simp
next
  case False
  then obtain bucket where b: "map_of (cache st) t0 = Some bucket" and i0: "i0 \<noteq> JNull" "hashable i0"
    by auto
  show ?thesis
  proof (cases "map_of bucket i0 = None \<or> map_of bucket i0 = Some JNull")
    case hit: False
    with run b i0 have "st' = st"
      by (auto simp: get_object_from_id_def Let_def split: option.splits)
    then show ?thesis by simp
  next
    case miss: True
    then have m: "cached st t0 i0 = None \<or> cached st t0 i0 = Some JNull"
      using b by (simp add: cached_def)
    from miss have obj: "(case map_of bucket i0 of None \<Rightarrow> JNull | Some v \<Rightarrow> v) = JNull"
      by auto
    show ?thesis
    proof (cases "methods c (''show_'' @ t0 @ ''s'')")
      case None
      with run b i0 obj have "st' = st"
        by (simp add: get_object_from_id_def)
      then show ?thesis by simp
    next
      case (Some func)
      show ?thesis
      proof (cases "func i0")
        case (Inl e)
        with run b i0 obj Some
        have "r = Inl e" "st' = st\<lparr>calls := calls st @ [Show (''show_'' @ t0 @ ''s'') i0]\<rparr>"
          by (simp_all add: get_object_from_id_def)
        with m show ?thesis by simp
      next
        case (Inr resp)
        with run b i0 obj Some
        have r: "r = py_get resp t0"
          and st': "st' = st\<lparr>calls := calls st @ [Show (''show_'' @ t0 @ ''s'') i0],
                     cache := AList.update t0 (AList.update i0 resp bucket) (cache st)\<rparr>"
          by (simp_all add: get_object_from_id_def)
        have "\<forall>t i. cached st' t i = (if t = t0 \<and> i = i0 then Some resp else cached st t i)"
          unfolding st' using cached_update [OF b] by blast
        with r m st' show ?thesis by auto
      qed
    qed
  qed
qed

lemma show_count_snoc:
  "calls st' = calls st @ [Show (''show_'' @ t0 @ ''s'') i0] \<Longrightarrow>
   show_count st' t i = show_count st t i + (if t = t0 \<and> i = i0 then 1 else 0)"
  by (auto simp: show_count_def)

lemma get_object_from_id_step:
  assumes inv: "consistent st" and run: "get_object_from_id c t0 i0 st = (r, st')"
  shows "(\<forall>t i. show_count st' t i \<le> 1)
       \<and> (\<forall>t i v. cached st t i = Some v \<longrightarrow> cached st' t i = Some v \<and> show_count st' t i = show_count st t i)
       \<and> (\<not> isl r \<longrightarrow> consistent st')"
proof -
  from get_object_from_id_cases [OF run]
  consider (same) "st' = st"
    | (miss) "cached st t0 i0 = None \<or> cached st t0 i0 = Some JNull"
        "calls st' = calls st @ [Show (''show_'' @ t0 @ ''s'') i0]"
        "(cache st' = cache st \<and> isl r)
          \<or> (\<exists>resp. r = py_get resp t0
               \<and> (\<forall>t i. cached st' t i = (if t = t0 \<and> i = i0 then Some resp else cached st t i)))"
    by blast
  then show ?thesis
  proof cases
    case same
    with inv show ?thesis by (simp add: consistent_def)
  next
    case miss
    from inv miss(1) have none: "cached st t0 i0 = None"
      by (auto simp: consistent_def)
    with inv have zero: "show_count st t0 i0 = 0"
      unfolding consistent_def by (metis not_gr_zero)
    have cnt: "show_count st' t i = show_count st t i + (if t = t0 \<and> i = i0 then 1 else 0)" for t i
      using miss(2) by (rule show_count_snoc)
    have le: "\<forall>t i. show_count st' t i \<le> 1"
      using inv zero by (auto simp: cnt consistent_def)
    from miss(3) show ?thesis
    proof
      assume a: "cache st' = cache st \<and> isl r"
      then have "cached st' t i = cached st t i" for t i
        by (simp add: cached_def)
      with le none a show ?thesis
        by (auto simp: cnt)
    next
      assume "\<exists>resp. r = py_get resp t0
               \<and> (\<forall>t i. cached st' t i = (if t = t0 \<and> i = i0 then Some resp else cached st t i))"
      then obtain resp where r: "r = py_get resp t0"
        and c: "\<And>t i. cached st' t i = (if t = t0 \<and> i = i0 then Some resp else cached st t i)"
        by blast
      have keep: "\<forall>t i v. cached st t i = Some v \<longrightarrow>
          cached st' t i = Some v \<and> show_count st' t i = show_count st t i"
        using none by (auto simp: c cnt)
      have "consistent st'" if "\<not> isl r"
      proof -
        from that r have "resp \<noteq> JNull"
          by (cases resp) simp_all
        with inv show ?thesis
          unfolding consistent_def using le by (auto simp: c cnt)
      qed
      with le keep show ?thesis by blast
    qed
  qed
qed

lemma resolve_all_step:
  assumes "consistent st" and "resolve_all c reqs st = (r, st')"
  shows "(\<forall>t i. show_count st' t i \<le> 1)
       \<and> (\<forall>t i v. cached st t i = Some v \<longrightarrow> cached st' t i = Some v \<and> show_count st' t i = show_count st t i)
       \<and> (\<not> isl r \<longrightarrow> consistent st')"
  using assms
proof (induction reqs arbitrary: st r st')
  case Nil
  then show ?case by (auto simp: consistent_def)
next
  case (Cons q reqs)
  obtain r1 st1 where g: "get_object_from_id c (fst q) (snd q) st = (r1, st1)"
    by (cases "get_object_from_id c (fst q) (snd q) st")
  note s1 = get_object_from_id_step [OF Cons.prems(1) g]
  show ?case
  proof (cases r1)
    case (Inl e)
    with g Cons.prems(2) have "st' = st1" "r = Inl e" by auto
    with s1 show ?thesis by simp
  next
    case (Inr v)
    with s1 have c1: "consistent st1" by simp
    obtain r2 st2 where h: "resolve_all c reqs st1 = (r2, st2)"
      by (cases "resolve_all c reqs st1")
    note s2 = Cons.IH [OF c1 h]
    from g Inr h Cons.prems(2) have st': "st' = st2" and r: "isl r = isl r2"
      by (auto split: sum.splits)
    from s1 s2 show ?thesis
      unfolding st' r by metis
  qed
qed

lemma resolve_all_append:
  "resolve_all c (reqs1 @ reqs2) st =
     (case resolve_all c reqs1 st of
        (Inl e, st1) \<Rightarrow> (Inl e, st1)
      | (Inr vs, st1) \<Rightarrow>
          (case resolve_all c reqs2 st1 of
             (Inl e, st2) \<Rightarrow> (Inl e, st2)
           | (Inr ws, st2) \<Rightarrow> (Inr (vs @ ws), st2)))"
  by (induction reqs1 arbitrary: st) (auto split: sum.splits prod.splits)

text \<open>
  C5. In a run that makes any sequence of lookups from a state with the empty cache and no
  show request in its log, the log never has more than one show request for a type and an
  identifier; and once a pair is stored, whatever lookups follow, the stored response stays
  the same and no further request for the pair is made.
\<close>

theorem cache_write_once:
  assumes "cache st = empty_cache" and "\<forall>m i. Show m i \<notin> set (calls st)"
  shows "show_count (snd (resolve_all c (reqs1 @ reqs2) st)) t i \<le> 1
   \<and> (cached (snd (resolve_all c reqs1 st)) t i = Some v \<longrightarrow>
        cached (snd (resolve_all c (reqs1 @ reqs2) st)) t i = Some v
        \<and> show_count (snd (resolve_all c (reqs1 @ reqs2) st)) t i =
            show_count (snd (resolve_all c reqs1 st)) t i)"
proof -
  have start: "consistent st"
    using assms by (rule consistent_start)
  obtain r1 st1 where a: "resolve_all c reqs1 st = (r1, st1)"
    by (cases "resolve_all c reqs1 st")
  obtain r st2 where b: "resolve_all c (reqs1 @ reqs2) st = (r, st2)"
    by (cases "resolve_all c (reqs1 @ reqs2) st")
  note whole = resolve_all_step [OF start b]
  note first = resolve_all_step [OF start a]
  have "cached st1 t i = Some v \<longrightarrow> cached st2 t i = Some v \<and> show_count st2 t i = show_count st1 t i"
  proof (cases r1)
    case (Inl e)
    with a b have "st2 = st1" by (simp add: resolve_all_append)
    then show ?thesis by simp
  next
    case (Inr vs)
    with first have c1: "consistent st1" by simp
    obtain r3 st3 where d: "resolve_all c reqs2 st1 = (r3, st3)"
      by (cases "resolve_all c reqs2 st1")
    from a b Inr d have "st2 = st3"
      by (auto simp: resolve_all_append split: sum.splits)
    with resolve_all_step [OF c1 d] show ?thesis by simp
  qed
  with whole show ?thesis by (simp add: a b)
qed

theorem cache_write_once_witness:
  "cache init_state = empty_cache \<and> calls init_state = []
   \<and> cached (snd (resolve_all host_client [(''host'', JInt 7)] init_state)) ''host'' (JInt 7)
     = Some (JObj [(''host'', plain_host)])
   \<and> show_count (snd (resolve_all host_client [(''host'', JInt 7)] init_state)) ''host'' (JInt 7) = 1
   \<and> cached (snd (resolve_all host_client ([(''host'', JInt 7)] @ [(''host'', JInt 7), (''host'', JInt 7)]) init_state))
        ''host'' (JInt 7) = Some (JObj [(''host'', plain_host)])
   \<and> show_count (snd (resolve_all host_client ([(''host'', JInt 7)] @ [(''host'', JInt 7), (''host'', JInt 7)]) init_state))
        ''host'' (JInt 7) = 1"
proof -
  have e: "cache init_state = empty_cache"
    by (simp add: init_state_def)
  have l: "\<forall>m i. Show m i \<notin> set (calls init_state)"
    by (simp add: init_calls)
  have st1: "resolve_all host_client [(''host'', JInt 7)] init_state =
      (Inr [plain_host],
       init_state\<lparr>calls := [Show ''show_hosts'' (JInt 7)],
         cache := AList.update ''host'' [(JInt 7, JObj [(''host'', plain_host)])] (cache init_state)\<rparr>)"
    by (simp add: get_object_from_id_def init_cache init_calls cache_keys_def host_client_def
        show_plain_host_def)
  have c: "cached (snd (resolve_all host_client [(''host'', JInt 7)] init_state)) ''host'' (JInt 7)
     = Some (JObj [(''host'', plain_host)])"
    unfolding st1 by (simp add: cached_def init_cache cache_keys_def)
  have n: "show_count (snd (resolve_all host_client [(''host'', JInt 7)] init_state)) ''host'' (JInt 7) = 1"
    unfolding st1 by (simp add: show_count_def)
  show ?thesis
    using cache_write_once [OF e l, of host_client "[(''host'', JInt 7)]" "[(''host'', JInt 7), (''host'', JInt 7)]"
        "''host''" "JInt 7" "JObj [(''host'', plain_host)]"] c n e
    by (simp add: init_calls)
qed

end
